theory Spec2Isabelle
  imports Main "HOL-Library.Word"
begin

unbundle bit_operations_syntax

section \<open>qmi-firmware-update: process lifecycle, signal bridge and log handler\<close>

text \<open>
  A shallow embedding of \<^verbatim>\<open>src/qmi-firmware-update/qfu-main.c\<close>. The three runtime
  globals \<^verbatim>\<open>loop\<close>, \<^verbatim>\<open>cancellable\<close> and \<^verbatim>\<open>exit_status\<close> become one record that
  every function takes and returns. The GLib objects behind the first two are kept as
  the part of their state the program reads: the \<^verbatim>\<open>is_running\<close> flag of the main
  loop and the \<^verbatim>\<open>cancelled\<close> flag of the cancellable.
\<close>

subsection \<open>Constants of the C library and of GLib\<close>

text \<open>\<^verbatim>\<open>EXIT_SUCCESS\<close> and \<^verbatim>\<open>EXIT_FAILURE\<close> of \<^verbatim>\<open>stdlib.h\<close>.\<close>

definition EXIT_SUCCESS :: int where
  "EXIT_SUCCESS = 0"

definition EXIT_FAILURE :: int where
  "EXIT_FAILURE = 1"

text \<open>The signals \<^verbatim>\<open>main\<close> registers a source for.\<close>

datatype signum = SIGINT | SIGHUP | SIGTERM

subsection \<open>Runtime globals\<close>

text \<open>
  \<^item> \<open>exit_status\<close>: the global \<^verbatim>\<open>gint exit_status\<close>;
  \<^item> \<open>cancelled\<close>: the flag of the global \<^verbatim>\<open>GCancellable\<close>;
  \<^item> \<open>cancel_calls\<close>: how many times \<^verbatim>\<open>g_cancellable_cancel\<close> has been called;
  \<^item> \<open>loop_running\<close>: the \<^verbatim>\<open>is_running\<close> flag of the global \<^verbatim>\<open>GMainLoop\<close>;
  \<^item> \<open>sources\<close>: for each signal, the number of unix signal sources attached to the
    default main context by \<^verbatim>\<open>g_unix_signal_add\<close>;
  \<^item> \<open>err_stream\<close>: what \<^verbatim>\<open>g_printerr\<close> has written, one entry per call.
\<close>

record state =
  exit_status :: int
  cancelled :: bool
  cancel_calls :: nat
  loop_running :: bool
  sources :: "signum \<Rightarrow> nat"
  err_stream :: "string list"

subsection \<open>The GLib calls of the signal handler\<close>

definition g_cancellable_is_cancelled :: "state \<Rightarrow> bool" where
  "g_cancellable_is_cancelled s = cancelled s"

definition g_cancellable_cancel :: "state \<Rightarrow> state" where
  "g_cancellable_cancel s = s\<lparr>cancelled := True, cancel_calls := Suc (cancel_calls s)\<rparr>"

definition g_main_loop_is_running :: "state \<Rightarrow> bool" where
  "g_main_loop_is_running s = loop_running s"

definition g_main_loop_quit :: "state \<Rightarrow> state" where
  "g_main_loop_quit s = s\<lparr>loop_running := False\<rparr>"

definition g_unix_signal_add :: "signum \<Rightarrow> state \<Rightarrow> state" where
  "g_unix_signal_add sig s = s\<lparr>sources := (sources s)(sig := Suc (sources s sig))\<rparr>"

definition g_printerr :: "string \<Rightarrow> state \<Rightarrow> state" where
  "g_printerr msg s = s\<lparr>err_stream := err_stream s @ [msg]\<rparr>"

text \<open>The two messages of the handler; each ends with a newline.\<close>

definition cancelling_operation_msg :: string where
  "cancelling_operation_msg = ''cancelling the operation...'' @ [CHR 0x0A]"

definition cancelling_loop_msg :: string where
  "cancelling_loop_msg = ''cancelling the main loop...'' @ [CHR 0x0A]"

subsection \<open>Signal handlers\<close>

text \<open>
  \<^verbatim>\<open>signals_handler\<close>, lines 87 to 109. The result pairs the \<^verbatim>\<open>gboolean\<close> the
  callback returns with the globals as it leaves them.
\<close>

definition signals_handler :: "signum \<Rightarrow> state \<Rightarrow> bool \<times> state" where
  "signals_handler psignum s0 =
     (let s = s0\<lparr>exit_status := EXIT_FAILURE\<rparr> in
      if \<not> g_cancellable_is_cancelled s then
        (False,
         g_unix_signal_add psignum
           (g_cancellable_cancel (g_printerr cancelling_operation_msg s)))
      else if g_main_loop_is_running s then
        (False, g_main_loop_quit (g_printerr cancelling_loop_msg s))
      else (False, s))"

text \<open>
  How the main context runs a source that fired: the callback is called, and a callback
  that returns \<^verbatim>\<open>FALSE\<close> has its source destroyed. A delivered signal runs the
  callback of one source of that signal; along a run no signal has more than one source
  (lemma \<open>settled_sources\<close> below).
\<close>

definition source_destroy :: "signum \<Rightarrow> state \<Rightarrow> state" where
  "source_destroy sig s = s\<lparr>sources := (sources s)(sig := sources s sig - 1)\<rparr>"

definition dispatch :: "signum \<Rightarrow> state \<Rightarrow> state" where
  "dispatch sig s =
     (case signals_handler sig s of
        (keep, s') \<Rightarrow> if keep then s' else source_destroy sig s')"

subsection \<open>The run: main loop and \<^verbatim>\<open>main\<close>\<close>

text \<open>
  The globals as \<^verbatim>\<open>main\<close> creates them (lines 221 to 223): the loop is created with
  \<^verbatim>\<open>is_running = FALSE\<close>, the cancellable is not cancelled and no signal source is
  attached yet.
\<close>

definition runtime_context :: state where
  "runtime_context =
     \<lparr>exit_status = EXIT_SUCCESS, cancelled = False, cancel_calls = 0,
      loop_running = False, sources = (\<lambda>sig. 0), err_stream = []\<rparr>"

text \<open>Lines 226 to 228.\<close>

definition setup_signals :: "state \<Rightarrow> state" where
  "setup_signals s =
     g_unix_signal_add SIGTERM (g_unix_signal_add SIGHUP (g_unix_signal_add SIGINT s))"

text \<open>
  \<^verbatim>\<open>g_main_loop_run\<close> sets \<^verbatim>\<open>is_running\<close> and iterates the context while the flag
  is set. The list holds the signals the process receives, in order, one per iteration.
  A signal with no source attached is not handled by the program: its default action
  ends the process. When the list is used up and the loop is still running, the loop
  waits for ever.
\<close>

datatype loop_result = Returned state | Terminated_by signum state | Waits state

fun iterate :: "signum list \<Rightarrow> state \<Rightarrow> loop_result" where
  "iterate [] s = (if loop_running s then Waits s else Returned s)"
| "iterate (sig # sigs) s =
     (if \<not> loop_running s then Returned s
      else if sources s sig = 0 then Terminated_by sig s
      else iterate sigs (dispatch sig s))"

definition loop_entry :: "state \<Rightarrow> state" where
  "loop_entry s = s\<lparr>loop_running := True\<rparr>"

definition g_main_loop_run :: "signum list \<Rightarrow> state \<Rightarrow> loop_result" where
  "g_main_loop_run sigs s = iterate sigs (loop_entry s)"

text \<open>
  One iteration of the context dispatches every source that is ready, so a handler can
  still be called after \<^verbatim>\<open>g_main_loop_quit\<close>. \<open>run_states\<close> lists the states of
  the globals along a sequence of deliveries that does not stop at the quit: the state
  before the first delivery, then the state after each handled one. It ends at the first
  signal that has no source attached.
\<close>

fun run_states :: "signum list \<Rightarrow> state \<Rightarrow> state list" where
  "run_states [] s = [s]"
| "run_states (sig # sigs) s =
     s # (if sources s sig = 0 then [] else run_states sigs (dispatch sig s))"

text \<open>The state in which the first iteration of the loop starts.\<close>

definition start :: state where
  "start = loop_entry (setup_signals runtime_context)"

text \<open>The main options (lines 42 to 47), as the option parser leaves them.\<close>

record options =
  device_str :: "string option"
  device_open_proxy_flag :: bool
  device_open_mbim_flag :: bool
  verbose_flag :: bool
  silent_flag :: bool
  version_flag :: bool

text \<open>
  \<^verbatim>\<open>main\<close>, lines 187 to 237. The first argument is what \<^verbatim>\<open>g_option_context_parse\<close>
  gives: an error message, or the options. The result is how the process ends; the text
  printed before an early \<^verbatim>\<open>exit\<close> is left out, and so are the calls that do not
  touch the runtime globals (the locale, the type system, the registration of the log
  handler, the traces of libqmi and the final unrefs).
\<close>

datatype outcome = Exited int | Killed signum | Never_returns

definition main :: "string + options \<Rightarrow> signum list \<Rightarrow> outcome" where
  "main parsed sigs =
     (case parsed of
        Inl message \<Rightarrow> Exited EXIT_FAILURE
      | Inr opts \<Rightarrow>
          if version_flag opts then Exited EXIT_SUCCESS
          else if device_str opts = None then Exited EXIT_FAILURE
          else (case g_main_loop_run sigs (setup_signals runtime_context) of
                  Returned s \<Rightarrow> Exited (exit_status s)
                | Terminated_by sig s \<Rightarrow> Killed sig
                | Waits s \<Rightarrow> Never_returns))"

subsection \<open>Logging output\<close>

text \<open>The values of \<^verbatim>\<open>GLogLevelFlags\<close> in GLib's \<^verbatim>\<open>gmessages.h\<close>.\<close>

type_synonym GLogLevelFlags = "32 word"

definition G_LOG_FLAG_RECURSION :: GLogLevelFlags where
  "G_LOG_FLAG_RECURSION = push_bit 0 1"

definition G_LOG_FLAG_FATAL :: GLogLevelFlags where
  "G_LOG_FLAG_FATAL = push_bit 1 1"

definition G_LOG_LEVEL_ERROR :: GLogLevelFlags where
  "G_LOG_LEVEL_ERROR = push_bit 2 1"

definition G_LOG_LEVEL_CRITICAL :: GLogLevelFlags where
  "G_LOG_LEVEL_CRITICAL = push_bit 3 1"

definition G_LOG_LEVEL_WARNING :: GLogLevelFlags where
  "G_LOG_LEVEL_WARNING = push_bit 4 1"

definition G_LOG_LEVEL_MESSAGE :: GLogLevelFlags where
  "G_LOG_LEVEL_MESSAGE = push_bit 5 1"

definition G_LOG_LEVEL_INFO :: GLogLevelFlags where
  "G_LOG_LEVEL_INFO = push_bit 6 1"

definition G_LOG_LEVEL_DEBUG :: GLogLevelFlags where
  "G_LOG_LEVEL_DEBUG = push_bit 7 1"

text \<open>
  The fields of \<^verbatim>\<open>struct tm\<close> that the format reads. \<^verbatim>\<open>localtime\<close> fills them from
  the current time, so none is negative.
\<close>

record tm =
  tm_sec :: nat
  tm_min :: nat
  tm_hour :: nat
  tm_mday :: nat
  tm_mon :: nat
  tm_year :: nat

text \<open>Decimal digits, and a number padded with a zero to two digits.\<close>

definition digit_char :: "nat \<Rightarrow> char" where
  "digit_char n = ''0123456789'' ! n"

fun decimal :: "nat \<Rightarrow> string" where
  "decimal n =
     (if n < 10 then [digit_char n] else decimal (n div 10) @ [digit_char (n mod 10)])"

declare decimal.simps [simp del]

definition two_digits :: "nat \<Rightarrow> string" where
  "two_digits n = (if n < 10 then CHR ''0'' # decimal n else decimal n)"

text \<open>
  \<^verbatim>\<open>strftime\<close>, for the conversions the program uses. The abbreviated month names come
  from the locale (\<^verbatim>\<open>main\<close> calls \<^verbatim>\<open>setlocale (LC_ALL, "")\<close>), so they are a
  parameter. Another conversion is copied as it is written.
\<close>

definition conversion :: "(nat \<Rightarrow> string) \<Rightarrow> char \<Rightarrow> tm \<Rightarrow> string" where
  "conversion abmon c t =
     (if c = CHR ''d'' then two_digits (tm_mday t)
      else if c = CHR ''b'' then abmon (tm_mon t)
      else if c = CHR ''Y'' then decimal (1900 + tm_year t)
      else if c = CHR ''H'' then two_digits (tm_hour t)
      else if c = CHR ''M'' then two_digits (tm_min t)
      else if c = CHR ''S'' then two_digits (tm_sec t)
      else [CHR ''%'', c])"

fun expand :: "(nat \<Rightarrow> string) \<Rightarrow> string \<Rightarrow> tm \<Rightarrow> string" where
  "expand abmon [] t = []"
| "expand abmon [c] t = [c]"
| "expand abmon (c # d # cs) t =
     (if c = CHR ''%'' then conversion abmon d t @ expand abmon cs t
      else c # expand abmon (d # cs) t)"

text \<open>
  \<^verbatim>\<open>strftime (buf, maxsize, format, tm)\<close> fills the buffer when the text and its
  terminating byte fit in \<^verbatim>\<open>maxsize\<close> bytes. Otherwise it returns 0 and the contents of the
  buffer are not specified: \<open>None\<close>.
\<close>

definition strftime :: "nat \<Rightarrow> (nat \<Rightarrow> string) \<Rightarrow> string \<Rightarrow> tm \<Rightarrow> string option" where
  "strftime maxsize abmon format t =
     (let r = expand abmon format t in if length r < maxsize then Some r else None)"

definition time_format :: string where
  "time_format = ''%d %b %Y, %H:%M:%S''"

text \<open>
  The \<^verbatim>\<open>switch\<close> of \<^verbatim>\<open>log_handler\<close> (lines 135 to 155): the level string and the flag
  \<^verbatim>\<open>err\<close>. A \<^verbatim>\<open>case\<close> label matches the whole value of \<^verbatim>\<open>log_level\<close>.
\<close>

definition level_switch :: "GLogLevelFlags \<Rightarrow> string \<times> bool" where
  "level_switch log_level =
     (if log_level = G_LOG_LEVEL_WARNING then (''-Warning **'', True)
      else if log_level = G_LOG_LEVEL_CRITICAL \<or> log_level = G_LOG_FLAG_FATAL
              \<or> log_level = G_LOG_LEVEL_ERROR then (''-Error **'', True)
      else if log_level = G_LOG_LEVEL_DEBUG then (''[Debug]'', False)
      else ([], False))"

text \<open>
  What one call of \<^verbatim>\<open>log_handler\<close> writes: nothing, one line on a stream, or, when
  \<^verbatim>\<open>strftime\<close> could not fill \<^verbatim>\<open>time_str\<close>, a line on a stream whose text is not
  specified.
\<close>

datatype stream = Stdout | Stderr

datatype log_output = Nothing | Line stream string | Unspecified_line stream

text \<open>
  \<^verbatim>\<open>log_handler\<close>, lines 114 to 165. The flags \<^verbatim>\<open>silent_flag\<close> and \<^verbatim>\<open>verbose_flag\<close>
  are read from the options; the broken-down local time is what \<^verbatim>\<open>localtime\<close> gave
  for the current time.
\<close>

definition log_handler ::
  "options \<Rightarrow> (nat \<Rightarrow> string) \<Rightarrow> tm \<Rightarrow> string \<Rightarrow> GLogLevelFlags \<Rightarrow> string \<Rightarrow> log_output" where
  "log_handler opts abmon local_time log_domain log_level message =
     (if silent_flag opts then Nothing
      else
        let time_str = strftime 64 abmon time_format local_time;
            (log_level_str, err) = level_switch log_level
        in if \<not> verbose_flag opts \<and> \<not> err then Nothing
           else
             (case time_str of
                None \<Rightarrow> Unspecified_line (if err then Stderr else Stdout)
              | Some ts \<Rightarrow>
                  Line (if err then Stderr else Stdout)
                    (''['' @ ts @ ''] '' @ log_level_str @ '' '' @ message @ [CHR 0x0A])))"

subsection \<open>An invariant of the run\<close>

text \<open>
  What holds of the globals from the first iteration on: the loop is running or the exit
  status is already the failure, and no signal has more than one source.
\<close>

definition settled :: "state \<Rightarrow> bool" where
  "settled s =
     ((loop_running s \<or> exit_status s = EXIT_FAILURE) \<and>
      sources s SIGINT \<le> 1 \<and> sources s SIGHUP \<le> 1 \<and> sources s SIGTERM \<le> 1)"

subsection \<open>Example inputs\<close>

text \<open>Options with a device path and no other flag.\<close>

definition example_options :: options where
  "example_options =
     \<lparr>device_str = Some ''/dev/cdc-wdm0'', device_open_proxy_flag = False,
      device_open_mbim_flag = False, verbose_flag = False, silent_flag = False,
      version_flag = False\<rparr>"

text \<open>
  A local time, the abbreviated month names of the C locale, and options with
  \<^verbatim>\<open>--verbose\<close> and with \<^verbatim>\<open>--silent\<close> added.
\<close>

definition example_time :: tm where
  "example_time = \<lparr>tm_sec = 5, tm_min = 7, tm_hour = 13, tm_mday = 3, tm_mon = 9, tm_year = 116\<rparr>"

definition c_locale_abmon :: "nat \<Rightarrow> string" where
  "c_locale_abmon m =
     [''Jan'', ''Feb'', ''Mar'', ''Apr'', ''May'', ''Jun'',
      ''Jul'', ''Aug'', ''Sep'', ''Oct'', ''Nov'', ''Dec''] ! m"

definition verbose_options :: options where
  "verbose_options = example_options\<lparr>verbose_flag := True\<rparr>"

definition silent_options :: options where
  "silent_options = example_options\<lparr>verbose_flag := True, silent_flag := True\<rparr>"

section \<open>Properties\<close>

subsection \<open>The two branches of the handler\<close>

lemma signals_handler_first:
  "\<not> cancelled s \<Longrightarrow>
   signals_handler sig s =
     (False, s\<lparr>exit_status := EXIT_FAILURE,
               err_stream := err_stream s @ [cancelling_operation_msg],
               cancelled := True, cancel_calls := Suc (cancel_calls s),
               sources := (sources s)(sig := Suc (sources s sig))\<rparr>)"
  by (simp add: signals_handler_def g_cancellable_is_cancelled_def g_unix_signal_add_def
      g_cancellable_cancel_def g_printerr_def)

lemma signals_handler_second:
  "cancelled s \<Longrightarrow>
   signals_handler sig s =
     (False,
      if loop_running s
      then s\<lparr>exit_status := EXIT_FAILURE,
             err_stream := err_stream s @ [cancelling_loop_msg],
             loop_running := False\<rparr>
      else s\<lparr>exit_status := EXIT_FAILURE\<rparr>)"
  by (simp add: signals_handler_def g_cancellable_is_cancelled_def g_main_loop_is_running_def
      g_main_loop_quit_def g_printerr_def)

lemma fst_signals_handler: "fst (signals_handler sig s) = False"
  by (simp add: signals_handler_def Let_def)

lemma dispatch_first:
  "\<not> cancelled s \<Longrightarrow>
   dispatch sig s =
     s\<lparr>exit_status := EXIT_FAILURE,
       err_stream := err_stream s @ [cancelling_operation_msg],
       cancelled := True, cancel_calls := Suc (cancel_calls s)\<rparr>"
  by (simp add: dispatch_def signals_handler_first source_destroy_def)

lemma dispatch_second:
  "cancelled s \<Longrightarrow>
   dispatch sig s =
     (if loop_running s
      then s\<lparr>exit_status := EXIT_FAILURE,
             err_stream := err_stream s @ [cancelling_loop_msg],
             loop_running := False,
             sources := (sources s)(sig := sources s sig - 1)\<rparr>
      else s\<lparr>exit_status := EXIT_FAILURE,
             sources := (sources s)(sig := sources s sig - 1)\<rparr>)"
  by (simp add: dispatch_def signals_handler_second source_destroy_def)

subsection \<open>One dispatch\<close>

lemma cancelled_dispatch: "cancelled (dispatch sig s)"
  by (cases "cancelled s") (simp_all add: dispatch_first dispatch_second)

lemma exit_status_dispatch: "exit_status (dispatch sig s) = EXIT_FAILURE"
  by (cases "cancelled s") (simp_all add: dispatch_first dispatch_second)

lemma loop_running_dispatch: "loop_running (dispatch sig s) = (loop_running s \<and> \<not> cancelled s)"
  by (cases "cancelled s") (simp_all add: dispatch_first dispatch_second)

lemma sources_dispatch:
  "sources (dispatch sig s) = (if cancelled s then (sources s)(sig := sources s sig - 1) else sources s)"
  by (cases "cancelled s") (simp_all add: dispatch_first dispatch_second)

subsection \<open>The invariant along a run\<close>

lemma settled_start: "settled start"
  by (simp add: settled_def start_def loop_entry_def setup_signals_def runtime_context_def g_unix_signal_add_def)

lemma settled_dispatch: "settled s \<Longrightarrow> settled (dispatch sig s)"
  by (cases sig) (simp_all add: settled_def exit_status_dispatch sources_dispatch)

lemma settled_run_states: "settled s \<Longrightarrow> s' \<in> set (run_states sigs s) \<Longrightarrow> settled s'"
proof (induction sigs arbitrary: s)
  case Nil
  then show ?case by simp
next
  case (Cons sig sigs)
  show ?case
  proof (cases "s' = s")
    case True
    with Cons.prems show ?thesis by simp
  next
    case False
    with Cons.prems have "s' \<in> set (run_states sigs (dispatch sig s))"
      by (simp split: if_splits)
    moreover have "settled (dispatch sig s)"
      using Cons.prems(1) by (rule settled_dispatch)
    ultimately show ?thesis by (rule Cons.IH [rotated])
  qed
qed

lemma settled_sources: "settled s \<Longrightarrow> sources s sig \<le> 1"
  by (cases sig) (simp_all add: settled_def)

lemma run_states_nth_later:
  "i \<le> j \<Longrightarrow> j < length (run_states sigs s) \<Longrightarrow>
   \<exists>sigs'. run_states sigs s ! j \<in> set (run_states sigs' (run_states sigs s ! i))"
proof (induction sigs arbitrary: s i j)
  case Nil
  then show ?case by (auto intro: exI [of _ "[]"])
next
  case (Cons sig sigs)
  show ?case
  proof (cases i)
    case 0
    have "run_states (sig # sigs) s ! j \<in> set (run_states (sig # sigs) s)"
      using Cons.prems(2) nth_mem by blast
    with 0 show ?thesis by (auto intro!: exI [of _ "sig # sigs"])
  next
    case (Suc i')
    with Cons.prems obtain j' where j': "j = Suc j'" "i' \<le> j'"
      by (cases j) auto
    from Cons.prems j' have ne: "sources s sig \<noteq> 0" by (auto split: if_splits)
    with Cons.prems j' have "j' < length (run_states sigs (dispatch sig s))" by simp
    from Cons.IH [OF j'(2) this] Suc j' ne show ?thesis by simp
  qed
qed

lemma stopped_stays:
  "\<not> loop_running s \<Longrightarrow> exit_status s = EXIT_FAILURE \<Longrightarrow> s' \<in> set (run_states sigs s) \<Longrightarrow>
   \<not> loop_running s' \<and> exit_status s' = EXIT_FAILURE"
proof (induction sigs arbitrary: s)
  case Nil
  then show ?case by simp
next
  case (Cons sig sigs)
  show ?case
  proof (cases "s' = s")
    case True
    with Cons.prems show ?thesis by simp
  next
    case False
    with Cons.prems have "s' \<in> set (run_states sigs (dispatch sig s))"
      by (simp split: if_splits)
    moreover have "\<not> loop_running (dispatch sig s)"
      using Cons.prems(1) by (simp add: loop_running_dispatch)
    moreover have "exit_status (dispatch sig s) = EXIT_FAILURE"
      by (rule exit_status_dispatch)
    ultimately show ?thesis using Cons.IH by blast
  qed
qed

subsection \<open>Further facts about the handler and the run\<close>

lemma exit_status_signals_handler: "exit_status (snd (signals_handler sig s)) = EXIT_FAILURE"
  by (cases "cancelled s") (simp_all add: signals_handler_first signals_handler_second)

lemma sources_signals_handler:
  "sources (snd (signals_handler sig s)) =
     (if cancelled s then sources s else (sources s)(sig := Suc (sources s sig)))"
  by (cases "cancelled s") (simp_all add: signals_handler_first signals_handler_second)

lemma run_states_0: "run_states sigs s ! 0 = s"
  by (cases sigs) simp_all

lemma run_states_later_cancelled:
  "0 < i \<Longrightarrow> i < length (run_states sigs s) \<Longrightarrow> cancelled (run_states sigs s ! i)"
proof (induction sigs arbitrary: s i)
  case Nil
  then show ?case by simp
next
  case (Cons sig sigs)
  from Cons.prems obtain k where k: "i = Suc k" by (cases i) auto
  from Cons.prems k have ne: "sources s sig \<noteq> 0" by (auto split: if_splits)
  with Cons.prems k have len: "k < length (run_states sigs (dispatch sig s))" by simp
  show ?case
  proof (cases k)
    case 0
    with k ne show ?thesis by (simp add: run_states_0 cancelled_dispatch)
  next
    case (Suc m)
    then have "0 < k" by simp
    from Cons.IH [OF this len] k ne show ?thesis by simp
  qed
qed

lemma iterate_Returned:
  "iterate sigs s = Returned s' \<Longrightarrow> settled s \<Longrightarrow> settled s' \<and> \<not> loop_running s'"
proof (induction sigs arbitrary: s)
  case Nil
  then show ?case by (simp split: if_splits)
next
  case (Cons sig sigs)
  show ?case
  proof (cases "loop_running s")
    case False
    with Cons.prems show ?thesis by simp
  next
    case True
    with Cons.prems have "iterate sigs (dispatch sig s) = Returned s'"
      by (simp split: if_splits)
    moreover have "settled (dispatch sig s)"
      using Cons.prems(2) by (rule settled_dispatch)
    ultimately show ?thesis by (rule Cons.IH)
  qed
qed

lemmas run_simps =
  start_def loop_entry_def setup_signals_def runtime_context_def g_unix_signal_add_def
  dispatch_def signals_handler_def source_destroy_def g_cancellable_is_cancelled_def
  g_cancellable_cancel_def g_main_loop_is_running_def g_main_loop_quit_def g_printerr_def
  g_main_loop_run_def

lemma dispatch_start:
  "dispatch sig start =
     start\<lparr>exit_status := EXIT_FAILURE, err_stream := [cancelling_operation_msg],
           cancelled := True, cancel_calls := Suc 0\<rparr>"
proof -
  have "\<not> cancelled start" by (simp add: run_simps)
  then have "dispatch sig start =
      start\<lparr>exit_status := EXIT_FAILURE,
            err_stream := err_stream start @ [cancelling_operation_msg],
            cancelled := True, cancel_calls := Suc (cancel_calls start)\<rparr>"
    by (rule dispatch_first)
  moreover have "err_stream start = []" and "cancel_calls start = 0"
    by (simp_all add: run_simps)
  ultimately show ?thesis by simp
qed

lemma sources_start: "sources start sig = 1"
  by (cases sig) (simp_all add: run_simps)

lemma loop_running_start: "loop_running start"
  by (simp add: start_def loop_entry_def)

lemma iterate_none: "iterate [] start = Waits start"
  by (simp add: loop_running_start)

lemma iterate_one: "iterate [sig] start = Waits (dispatch sig start)"
  by (simp add: loop_running_start sources_start dispatch_start)

lemma iterate_two:
  "iterate (sig1 # sig2 # rest) start = Returned (dispatch sig2 (dispatch sig1 start))"
proof -
  let ?s1 = "dispatch sig1 start"
  have s1: "loop_running ?s1" "cancelled ?s1" "sources ?s1 sig2 = 1"
    by (simp_all add: dispatch_start loop_running_start sources_start)
  then have "\<not> loop_running (dispatch sig2 ?s1)"
    by (simp add: dispatch_second)
  with s1 show ?thesis
    by (cases rest) (simp_all add: loop_running_start sources_start)
qed


subsection \<open>The log handler\<close>

lemmas level_defs =
  G_LOG_FLAG_RECURSION_def G_LOG_FLAG_FATAL_def G_LOG_LEVEL_ERROR_def G_LOG_LEVEL_CRITICAL_def
  G_LOG_LEVEL_WARNING_def G_LOG_LEVEL_MESSAGE_def G_LOG_LEVEL_INFO_def G_LOG_LEVEL_DEBUG_def

lemma level_values:
  "G_LOG_FLAG_RECURSION = 1" "G_LOG_FLAG_FATAL = 2" "G_LOG_LEVEL_ERROR = 4"
  "G_LOG_LEVEL_CRITICAL = 8" "G_LOG_LEVEL_WARNING = 16" "G_LOG_LEVEL_MESSAGE = 32"
  "G_LOG_LEVEL_INFO = 64" "G_LOG_LEVEL_DEBUG = 128"
  by (simp_all add: level_defs)

lemma expand_time_format:
  "expand ab time_format t =
     two_digits (tm_mday t) @ '' '' @ ab (tm_mon t) @ '' '' @ decimal (1900 + tm_year t) @ '', '' @
     two_digits (tm_hour t) @ '':'' @ two_digits (tm_min t) @ '':'' @ two_digits (tm_sec t)"
  by (simp add: time_format_def conversion_def)

lemma snd_level_switch:
  "snd (level_switch lvl) =
     (lvl = G_LOG_LEVEL_WARNING \<or> lvl = G_LOG_LEVEL_CRITICAL \<or> lvl = G_LOG_FLAG_FATAL \<or>
      lvl = G_LOG_LEVEL_ERROR)"
  by (simp add: level_switch_def level_values)

lemma log_handler_Nothing:
  "(log_handler opts ab t d lvl msg = Nothing) =
     (silent_flag opts \<or> \<not> verbose_flag opts \<and> \<not> snd (level_switch lvl))"
  by (simp add: log_handler_def Let_def split: prod.splits option.splits)

lemma single_bit:
  "i \<noteq> j \<Longrightarrow> bit lvl i \<Longrightarrow> bit lvl j \<Longrightarrow> lvl \<noteq> (push_bit k 1 :: 32 word)"
  by (auto simp: bit_simps)

lemma several_bits_default:
  fixes lvl :: GLogLevelFlags
  assumes "i \<noteq> j" "bit lvl i" "bit lvl j"
  shows "level_switch lvl = ([], False)"
proof -
  have "lvl \<noteq> push_bit k 1" for k
    using assms by (rule single_bit)
  from this [of 1] this [of 2] this [of 3] this [of 4] this [of 7]
  show ?thesis by (simp add: level_switch_def level_defs)
qed

lemma length_decimal_le: "0 < k \<Longrightarrow> n < 10 ^ k \<Longrightarrow> length (decimal n) \<le> k"
proof (induction n arbitrary: k rule: decimal.induct)
  case (1 n)
  show ?case
  proof (cases "n < 10")
    case True
    with "1.prems" show ?thesis by (simp add: decimal.simps [of n])
  next
    case False
    from "1.prems" obtain k' where k': "k = Suc k'"
      by (cases k) auto
    with "1.prems" False have "k' \<noteq> 0" by (intro notI) simp
    with k' have k: "k = Suc k'" "0 < k'" by simp_all
    with "1.prems" have "n div 10 < 10 ^ k'" by (simp add: less_mult_imp_div_less mult.commute)
    from "1.IH" [OF False k(2) this] False k show ?thesis
      by (simp add: decimal.simps [of n])
  qed
qed

lemma length_two_digits:
  assumes "n < 100"
  shows "length (two_digits n) = 2"
proof -
  from assms have "n div 10 < 10" by simp
  then show ?thesis
    by (simp add: two_digits_def decimal.simps [of n] decimal.simps [of "n div 10"])
qed

lemma strftime_fits:
  assumes "tm_mday t < 100" "tm_hour t < 100" "tm_min t < 100" "tm_sec t < 100"
    and "1900 + tm_year t < 10 ^ 10" and "length (ab (tm_mon t)) < 40"
  shows "strftime 64 ab time_format t = Some (expand ab time_format t)"
proof -
  have "length (decimal (1900 + tm_year t)) \<le> 10"
    using assms(5) by (intro length_decimal_le) simp_all
  with assms have "length (expand ab time_format t) < 64"
    by (simp add: expand_time_format length_two_digits)
  then show ?thesis by (simp add: strftime_def)
qed

lemma strftime_example:
  "strftime 64 c_locale_abmon time_format example_time = Some ''03 Oct 2016, 13:07:05''"
  by (simp add: strftime_def expand_time_format example_time_def c_locale_abmon_def
      two_digits_def decimal.simps digit_char_def)

lemmas example_simps =
  example_options_def verbose_options_def silent_options_def

section \<open>The claims about the signal handler and the run\<close>

text \<open>
  Claim C1. In every run, once the loop has stopped the exit status does not change any
  more: at every later state of the run it has the value it had when the loop was found
  stopped, the loop is still stopped, and a call of the signal handler in that state
  leaves the value as it is. The handler has no test of the loop before its assignment
  (line 91): it writes \<^verbatim>\<open>EXIT_FAILURE\<close> again. The value is kept because only the
  second branch of the handler stops the loop, after the same assignment.
\<close>

theorem exit_status_kept_once_stopped:
  assumes "i \<le> j" and "j < length (run_states sigs start)"
    and "\<not> g_main_loop_is_running (run_states sigs start ! i)"
  shows "exit_status (run_states sigs start ! j) = exit_status (run_states sigs start ! i) \<and>
         \<not> g_main_loop_is_running (run_states sigs start ! j) \<and>
         exit_status (snd (signals_handler sig (run_states sigs start ! i))) =
           exit_status (run_states sigs start ! i)"
proof -
  let ?si = "run_states sigs start ! i" and ?sj = "run_states sigs start ! j"
  from assms have "i < length (run_states sigs start)" by simp
  then have "?si \<in> set (run_states sigs start)" by (rule nth_mem)
  with settled_start have "settled ?si" by (rule settled_run_states)
  with assms(3) have failure: "exit_status ?si = EXIT_FAILURE"
    by (simp add: settled_def g_main_loop_is_running_def)
  from run_states_nth_later [OF assms(1,2)]
  obtain sigs' where "?sj \<in> set (run_states sigs' ?si)" ..
  with assms(3) failure have "\<not> loop_running ?sj \<and> exit_status ?sj = EXIT_FAILURE"
    by (intro stopped_stays) (simp_all add: g_main_loop_is_running_def)
  with failure show ?thesis
    by (simp add: g_main_loop_is_running_def exit_status_signals_handler)
qed

theorem exit_status_kept_once_stopped_witness:
  "(2::nat) \<le> 3 \<and> 3 < length (run_states [SIGINT, SIGTERM, SIGHUP] start) \<and>
   \<not> g_main_loop_is_running (run_states [SIGINT, SIGTERM, SIGHUP] start ! 2) \<and>
   exit_status (run_states [SIGINT, SIGTERM, SIGHUP] start ! 3) =
     exit_status (run_states [SIGINT, SIGTERM, SIGHUP] start ! 2) \<and>
   \<not> g_main_loop_is_running (run_states [SIGINT, SIGTERM, SIGHUP] start ! 3) \<and>
   exit_status (snd (signals_handler SIGHUP (run_states [SIGINT, SIGTERM, SIGHUP] start ! 2))) =
     exit_status (run_states [SIGINT, SIGTERM, SIGHUP] start ! 2)"
  using exit_status_kept_once_stopped [of 2 3 "[SIGINT, SIGTERM, SIGHUP]" SIGHUP]
  by (simp add: run_simps)

text \<open>
  Claim C2. When a monitored signal is delivered and the cancellable is not cancelled
  yet, the handler returns \<^verbatim>\<open>FALSE\<close>, sets the exit status to the failure, writes
  to the error stream one line and no more, whose text is \<^verbatim>\<open>cancelling the operation...\<close>
  followed by the newline (the literal of line 95), cancels the
  cancellable with one call, adds a source for the same signal and for no other, and
  leaves the running flag of the loop as it was. After the dispatch, which destroys the
  source that fired, each signal has as many sources as before.
\<close>

theorem first_signal_requests_cancel:
  assumes "\<not> g_cancellable_is_cancelled s"
  shows "fst (signals_handler sig s) = False \<and>
         exit_status (snd (signals_handler sig s)) = EXIT_FAILURE \<and>
         err_stream (snd (signals_handler sig s)) =
           err_stream s @ [''cancelling the operation...'' @ [CHR 0x0A]] \<and>
         err_stream (snd (signals_handler sig s)) = err_stream s @ [cancelling_operation_msg] \<and>
         g_cancellable_is_cancelled (snd (signals_handler sig s)) \<and>
         cancel_calls (snd (signals_handler sig s)) = Suc (cancel_calls s) \<and>
         sources (snd (signals_handler sig s)) = (sources s)(sig := Suc (sources s sig)) \<and>
         sources (dispatch sig s) = sources s \<and>
         g_main_loop_is_running (snd (signals_handler sig s)) = g_main_loop_is_running s \<and>
         g_main_loop_is_running (dispatch sig s) = g_main_loop_is_running s"
  using assms
  by (simp add: g_cancellable_is_cancelled_def g_main_loop_is_running_def
      signals_handler_first dispatch_first cancelling_operation_msg_def)

theorem first_signal_requests_cancel_witness:
  "\<not> g_cancellable_is_cancelled start \<and>
   fst (signals_handler SIGHUP start) = False \<and>
   exit_status (snd (signals_handler SIGHUP start)) = EXIT_FAILURE \<and>
   err_stream start = [] \<and>
   err_stream (snd (signals_handler SIGHUP start)) = [''cancelling the operation...\<newline>''] \<and>
   g_cancellable_is_cancelled (snd (signals_handler SIGHUP start)) \<and>
   cancel_calls (snd (signals_handler SIGHUP start)) = 1 \<and>
   sources (snd (signals_handler SIGHUP start)) SIGHUP = 2 \<and>
   sources (dispatch SIGHUP start) SIGHUP = 1 \<and>
   g_main_loop_is_running (dispatch SIGHUP start)"
  using first_signal_requests_cancel [of start SIGHUP]
  by (simp add: run_simps)

text \<open>
  Claim C3. When a monitored signal is delivered and the cancellable is cancelled
  already, the handler does not call \<^verbatim>\<open>g_cancellable_cancel\<close> and adds no source.
  If the loop is running it writes \<^verbatim>\<open>cancelling the main loop...\<close> and quits the
  loop in that same call; nothing else of the state is read. If the loop is not running,
  the assignment of the exit status is all it does.
\<close>

theorem second_signal_stops_loop:
  assumes "g_cancellable_is_cancelled s"
  shows "fst (signals_handler sig s) = False \<and>
         cancel_calls (snd (signals_handler sig s)) = cancel_calls s \<and>
         cancelled (snd (signals_handler sig s)) = cancelled s \<and>
         sources (snd (signals_handler sig s)) = sources s \<and>
         \<not> g_main_loop_is_running (snd (signals_handler sig s)) \<and>
         snd (signals_handler sig s) =
           (if g_main_loop_is_running s
            then s\<lparr>exit_status := EXIT_FAILURE,
                   err_stream := err_stream s @ [cancelling_loop_msg],
                   loop_running := False\<rparr>
            else s\<lparr>exit_status := EXIT_FAILURE\<rparr>)"
  using assms
  by (simp add: g_cancellable_is_cancelled_def g_main_loop_is_running_def
      signals_handler_second)

theorem second_signal_stops_loop_witness:
  "g_cancellable_is_cancelled (dispatch SIGINT start) \<and>
   g_main_loop_is_running (dispatch SIGINT start) \<and>
   cancel_calls (snd (signals_handler SIGTERM (dispatch SIGINT start))) = 1 \<and>
   \<not> g_main_loop_is_running (snd (signals_handler SIGTERM (dispatch SIGINT start))) \<and>
   err_stream (snd (signals_handler SIGTERM (dispatch SIGINT start))) =
     [cancelling_operation_msg, cancelling_loop_msg]"
  using second_signal_stops_loop [of "dispatch SIGINT start" SIGTERM]
  by (simp add: run_simps)

text \<open>
  Claim C4. For every sequence of deliveries, the cancellable is not cancelled before the
  first delivery and is cancelled in every state after it: in the states of a run,
  \<^verbatim>\<open>g_cancellable_is_cancelled\<close> holds exactly at the indices after the first.
\<close>

theorem cancelled_from_first_signal_on:
  "\<not> g_cancellable_is_cancelled start \<and>
   (\<forall>i < length (run_states sigs start).
      g_cancellable_is_cancelled (run_states sigs start ! i) = (0 < i))"
proof -
  have "\<not> cancelled start" by (simp add: run_simps)
  moreover have "cancelled (run_states sigs start ! i) = (0 < i)"
    if "i < length (run_states sigs start)" for i
  proof (cases i)
    case 0
    with \<open>\<not> cancelled start\<close> show ?thesis by (simp add: run_states_0)
  next
    case (Suc k)
    then have "0 < i" by simp
    from run_states_later_cancelled [OF this that] this show ?thesis by simp
  qed
  ultimately show ?thesis by (simp add: g_cancellable_is_cancelled_def)
qed


theorem cancelled_from_first_signal_on_witness:
  "\<not> g_cancellable_is_cancelled start \<and>
   g_cancellable_is_cancelled (run_states [SIGHUP, SIGINT] start ! 1) \<and>
   g_cancellable_is_cancelled (run_states [SIGHUP, SIGINT] start ! 2)"
  using cancelled_from_first_signal_on [of "[SIGHUP, SIGINT]"]
  by (simp add: run_simps)

text \<open>
  Claim C5. The escalation is shared by the three signals. For any first signal and any
  second signal, of the same type or not (an interrupt and then a terminate among them):
  after the first the loop is running and the cancellable is cancelled; the handler of
  the second stops the loop; the exit status is the failure; and \<^verbatim>\<open>g_main_loop_run\<close>
  returns in the state the second handler leaves, whatever signals follow.
\<close>

theorem escalation_shared_by_signals:
  "run_states [sig1, sig2] start = [start, dispatch sig1 start, dispatch sig2 (dispatch sig1 start)] \<and>
   g_main_loop_is_running (dispatch sig1 start) \<and>
   g_cancellable_is_cancelled (dispatch sig1 start) \<and>
   \<not> g_main_loop_is_running (dispatch sig2 (dispatch sig1 start)) \<and>
   exit_status (dispatch sig2 (dispatch sig1 start)) = EXIT_FAILURE \<and>
   err_stream (dispatch sig2 (dispatch sig1 start)) =
     [cancelling_operation_msg, cancelling_loop_msg] \<and>
   g_main_loop_run (sig1 # sig2 # rest) (setup_signals runtime_context) =
     Returned (dispatch sig2 (dispatch sig1 start))"
proof -
  let ?s1 = "dispatch sig1 start"
  have s1: "loop_running ?s1" "cancelled ?s1" "sources ?s1 sig2 = 1"
    "err_stream ?s1 = [cancelling_operation_msg]"
    by (simp_all add: dispatch_start loop_running_start sources_start)
  then have s2: "\<not> loop_running (dispatch sig2 ?s1)"
    "err_stream (dispatch sig2 ?s1) = [cancelling_operation_msg, cancelling_loop_msg]"
    by (simp_all add: dispatch_second)
  have "iterate (sig1 # sig2 # rest) start = Returned (dispatch sig2 ?s1)"
    using s1 s2 by (cases rest) (simp_all add: loop_running_start sources_start)
  moreover have "g_main_loop_run (sig1 # sig2 # rest) (setup_signals runtime_context) =
      iterate (sig1 # sig2 # rest) start"
    by (simp only: g_main_loop_run_def start_def)
  ultimately have "g_main_loop_run (sig1 # sig2 # rest) (setup_signals runtime_context) =
      Returned (dispatch sig2 ?s1)"
    by simp
  with s1 s2 show ?thesis
    by (simp add: sources_start exit_status_dispatch
        g_main_loop_is_running_def g_cancellable_is_cancelled_def)
qed

theorem escalation_shared_by_signals_witness:
  "g_main_loop_is_running (dispatch SIGINT start) \<and>
   \<not> g_main_loop_is_running (dispatch SIGTERM (dispatch SIGINT start)) \<and>
   exit_status (dispatch SIGTERM (dispatch SIGINT start)) = EXIT_FAILURE \<and>
   g_main_loop_run [SIGINT, SIGTERM] (setup_signals runtime_context) =
     Returned (dispatch SIGTERM (dispatch SIGINT start))"
  using escalation_shared_by_signals [of SIGINT SIGTERM "[]"]
  by simp

text \<open>
  Claim C9. The handler returns \<^verbatim>\<open>FALSE\<close> in every state, and it adds a source only
  when the cancellable is not cancelled. So in a state of a run where the cancellable is
  cancelled and the signal has a source, the handler adds none, the dispatch leaves the
  signal with no source, and a further delivery of that signal is not handled by the
  program: the run ends there.
\<close>

theorem forced_stop_leaves_signal_unhandled:
  assumes "s \<in> set (run_states sigs start)" and "g_cancellable_is_cancelled s"
    and "0 < sources s sig"
  shows "fst (signals_handler sig s) = False \<and>
         sources (snd (signals_handler sig s)) = sources s \<and>
         sources (dispatch sig s) sig = 0 \<and>
         run_states (sig # later) (dispatch sig s) = [dispatch sig s] \<and>
         fst (signals_handler sig' s') = False \<and>
         sources (snd (signals_handler sig' s')) =
           (if g_cancellable_is_cancelled s' then sources s'
            else (sources s')(sig' := Suc (sources s' sig')))"
proof -
  from settled_start assms(1) have "settled s" by (rule settled_run_states)
  then have "sources s sig \<le> 1" by (rule settled_sources)
  with assms(3) have "sources s sig = 1" by simp
  with assms(2) have "sources (dispatch sig s) sig = 0"
    by (simp add: sources_dispatch g_cancellable_is_cancelled_def)
  with assms(2) show ?thesis
    by (simp add: fst_signals_handler sources_signals_handler g_cancellable_is_cancelled_def)
qed

theorem forced_stop_leaves_signal_unhandled_witness:
  "dispatch SIGINT start \<in> set (run_states [SIGINT] start) \<and>
   g_cancellable_is_cancelled (dispatch SIGINT start) \<and>
   0 < sources (dispatch SIGINT start) SIGINT \<and>
   sources (dispatch SIGINT (dispatch SIGINT start)) SIGINT = 0 \<and>
   run_states [SIGINT] (dispatch SIGINT (dispatch SIGINT start)) =
     [dispatch SIGINT (dispatch SIGINT start)]"
  using forced_stop_leaves_signal_unhandled [of "dispatch SIGINT start" "[SIGINT]" SIGINT "[]" SIGINT start]
  by (simp add: run_simps)

text \<open>
  Claim C8, as amended. With a device path and no \<^verbatim>\<open>--version\<close>, the first
  iteration starts with the loop running and the exit status \<^verbatim>\<open>EXIT_SUCCESS\<close>, which
  is 0, while \<^verbatim>\<open>EXIT_FAILURE\<close> is not 0. Whenever the loop returns, it has stopped and
  \<^verbatim>\<open>main\<close> exits with the exit status of the state the loop returned in; and
  \<^verbatim>\<open>main\<close> exits with a code only in that way. A run in which no signal is delivered
  never leaves the loop, so it has no exit code. Since only the handler stops the loop,
  the run exits exactly when two signals or more are delivered, and then with the
  failure.
\<close>

theorem main_returns_exit_status:
  assumes "device_str opts \<noteq> None" and "\<not> version_flag opts"
  shows "g_main_loop_is_running start \<and> exit_status start = EXIT_SUCCESS \<and>
         EXIT_SUCCESS = 0 \<and> EXIT_FAILURE \<noteq> 0 \<and>
         (\<forall>s. g_main_loop_run sigs (setup_signals runtime_context) = Returned s \<longrightarrow>
            \<not> g_main_loop_is_running s \<and> main (Inr opts) sigs = Exited (exit_status s)) \<and>
         (\<forall>code. main (Inr opts) sigs = Exited code \<longrightarrow>
            (\<exists>s. g_main_loop_run sigs (setup_signals runtime_context) = Returned s \<and>
                 \<not> g_main_loop_is_running s \<and> code = exit_status s \<and> code = EXIT_FAILURE)) \<and>
         main (Inr opts) sigs =
           (if length sigs < 2 then Never_returns else Exited EXIT_FAILURE) \<and>
         main (Inr opts) [] = Never_returns"
proof -
  have run: "g_main_loop_run sigs (setup_signals runtime_context) = iterate sigs start" for sigs
    by (simp only: g_main_loop_run_def start_def)
  have stopped: "\<not> loop_running s \<and> exit_status s = EXIT_FAILURE"
    if "g_main_loop_run sigs (setup_signals runtime_context) = Returned s" for s
  proof -
    from that have "iterate sigs start = Returned s" by (simp only: run)
    from iterate_Returned [OF this settled_start] show ?thesis
      by (auto simp: settled_def)
  qed
  have main_eq: "main (Inr opts) sigs =
      (case iterate sigs start of
         Returned s \<Rightarrow> Exited (exit_status s)
       | Terminated_by sig s \<Rightarrow> Killed sig
       | Waits s \<Rightarrow> Never_returns)" for sigs
    using assms by (cases "device_str opts") (simp_all add: main_def run)
  have returns: "\<forall>s. g_main_loop_run sigs (setup_signals runtime_context) = Returned s \<longrightarrow>
      \<not> g_main_loop_is_running s \<and> main (Inr opts) sigs = Exited (exit_status s)"
  proof (intro allI impI)
    fix s
    assume r: "g_main_loop_run sigs (setup_signals runtime_context) = Returned s"
    then have "main (Inr opts) sigs = Exited (exit_status s)"
      by (simp add: main_eq run)
    with stopped [OF r]
    show "\<not> g_main_loop_is_running s \<and> main (Inr opts) sigs = Exited (exit_status s)"
      by (simp add: g_main_loop_is_running_def)
  qed
  have exits: "\<forall>code. main (Inr opts) sigs = Exited code \<longrightarrow>
      (\<exists>s. g_main_loop_run sigs (setup_signals runtime_context) = Returned s \<and>
           \<not> g_main_loop_is_running s \<and> code = exit_status s \<and> code = EXIT_FAILURE)"
  proof (intro allI impI)
    fix code
    assume "main (Inr opts) sigs = Exited code"
    then obtain s where
      s: "iterate sigs start = Returned s" "code = exit_status s"
      by (cases "iterate sigs start") (simp_all add: main_eq)
    from s(1) have r: "g_main_loop_run sigs (setup_signals runtime_context) = Returned s"
      by (simp only: run)
    from stopped [OF r] s(2) have "\<not> g_main_loop_is_running s \<and> code = exit_status s \<and>
        code = EXIT_FAILURE"
      by (simp add: g_main_loop_is_running_def)
    with r show "\<exists>s. g_main_loop_run sigs (setup_signals runtime_context) = Returned s \<and>
        \<not> g_main_loop_is_running s \<and> code = exit_status s \<and> code = EXIT_FAILURE"
      by (intro exI [of _ s] conjI) simp_all
  qed
  have by_length: "main (Inr opts) sigs =
      (if length sigs < 2 then Never_returns else Exited EXIT_FAILURE)"
  proof (cases sigs)
    case Nil
    then show ?thesis by (simp add: main_eq iterate_none del: iterate.simps)
  next
    case (Cons sig1 sigs')
    show ?thesis
    proof (cases sigs')
      case Nil
      with Cons show ?thesis by (simp add: main_eq iterate_one del: iterate.simps)
    next
      case (Cons sig2 rest)
      with \<open>sigs = sig1 # sigs'\<close> show ?thesis
        by (simp add: main_eq iterate_two exit_status_dispatch del: iterate.simps)
    qed
  qed
  have none: "main (Inr opts) [] = Never_returns"
    by (simp add: main_eq iterate_none del: iterate.simps)
  have running: "g_main_loop_is_running start"
    by (simp add: g_main_loop_is_running_def loop_running_start)
  have success: "exit_status start = EXIT_SUCCESS"
    by (simp add: run_simps)
  have zero: "EXIT_SUCCESS = 0" and nonzero: "EXIT_FAILURE \<noteq> 0"
    by (simp_all add: EXIT_SUCCESS_def EXIT_FAILURE_def)
  from running success zero nonzero returns exits by_length none show ?thesis
    by (intro conjI)
qed

theorem main_returns_exit_status_witness:
  "device_str example_options \<noteq> None \<and> \<not> version_flag example_options \<and>
   main (Inr example_options) [] = Never_returns \<and>
   main (Inr example_options) [SIGTERM] = Never_returns \<and>
   main (Inr example_options) [SIGTERM, SIGTERM] = Exited EXIT_FAILURE \<and>
   (\<exists>s. g_main_loop_run [SIGTERM, SIGTERM] (setup_signals runtime_context) = Returned s \<and>
        \<not> g_main_loop_is_running s \<and> exit_status s = EXIT_FAILURE \<and>
        main (Inr example_options) [SIGTERM, SIGTERM] = Exited (exit_status s))"
proof -
  have opts: "device_str example_options \<noteq> None" "\<not> version_flag example_options"
    by (simp_all add: example_options_def)
  note two = main_returns_exit_status [OF opts, of "[SIGTERM, SIGTERM]"]
  note one = main_returns_exit_status [OF opts, of "[SIGTERM]"]
  from two have none: "main (Inr example_options) [] = Never_returns"
    by (elim conjE)
  from one have "main (Inr example_options) [SIGTERM] =
      (if length [SIGTERM] < 2 then Never_returns else Exited EXIT_FAILURE)"
    by (elim conjE)
  then have single: "main (Inr example_options) [SIGTERM] = Never_returns"
    by simp
  from two have "main (Inr example_options) [SIGTERM, SIGTERM] =
      (if length [SIGTERM, SIGTERM] < 2 then Never_returns else Exited EXIT_FAILURE)"
    by (elim conjE)
  then have pair: "main (Inr example_options) [SIGTERM, SIGTERM] = Exited EXIT_FAILURE"
    by simp
  from two have "\<forall>code. main (Inr example_options) [SIGTERM, SIGTERM] = Exited code \<longrightarrow>
      (\<exists>s. g_main_loop_run [SIGTERM, SIGTERM] (setup_signals runtime_context) = Returned s \<and>
           \<not> g_main_loop_is_running s \<and> code = exit_status s \<and> code = EXIT_FAILURE)"
    by (elim conjE)
  from this [rule_format, OF pair] obtain s where
    s: "g_main_loop_run [SIGTERM, SIGTERM] (setup_signals runtime_context) = Returned s"
      "\<not> g_main_loop_is_running s" "EXIT_FAILURE = exit_status s"
    by (elim exE conjE)
  from s pair have "g_main_loop_run [SIGTERM, SIGTERM] (setup_signals runtime_context) =
      Returned s \<and> \<not> g_main_loop_is_running s \<and> exit_status s = EXIT_FAILURE \<and>
      main (Inr example_options) [SIGTERM, SIGTERM] = Exited (exit_status s)"
    by simp
  then have "\<exists>s. g_main_loop_run [SIGTERM, SIGTERM] (setup_signals runtime_context) =
      Returned s \<and> \<not> g_main_loop_is_running s \<and> exit_status s = EXIT_FAILURE \<and>
      main (Inr example_options) [SIGTERM, SIGTERM] = Exited (exit_status s)"
    by (rule exI)
  with opts none single pair show ?thesis
    by (intro conjI)
qed

text \<open>
  The claim as first stated fails: with a device path and no signal delivered, the run
  does not exit with code 0, because the loop never stops.
\<close>

theorem run_without_signal_never_exits:
  "main (Inr example_options) [] = Never_returns \<and> main (Inr example_options) [] \<noteq> Exited 0"
  by (simp add: example_options_def main_def run_simps)

section \<open>The claims about the log handler\<close>

text \<open>
  Claim C6. The filter of \<^verbatim>\<open>log_handler\<close>, for every record. With \<^verbatim>\<open>silent_flag\<close>
  set nothing is written, whatever the level and whatever \<^verbatim>\<open>verbose_flag\<close>. Otherwise,
  with \<^verbatim>\<open>verbose_flag\<close> set every level is written. With both flags clear a record is
  written exactly when the \<^verbatim>\<open>switch\<close> sets \<^verbatim>\<open>err\<close>; among the six log levels
  these are the warning, the critical and the error, and the message, the info and the
  debug level write nothing. (The \<^verbatim>\<open>switch\<close> also sets \<^verbatim>\<open>err\<close> for the value of the
  fatal flag alone, which is no level.)
\<close>

theorem log_handler_filter:
  "(silent_flag opts \<longrightarrow> log_handler opts ab t d lvl msg = Nothing) \<and>
   (\<not> silent_flag opts \<and> verbose_flag opts \<longrightarrow> log_handler opts ab t d lvl msg \<noteq> Nothing) \<and>
   (\<not> silent_flag opts \<and> \<not> verbose_flag opts \<longrightarrow>
      (log_handler opts ab t d lvl msg \<noteq> Nothing) =
        (lvl \<in> {G_LOG_LEVEL_WARNING, G_LOG_LEVEL_CRITICAL, G_LOG_FLAG_FATAL, G_LOG_LEVEL_ERROR})) \<and>
   (\<not> silent_flag opts \<and> \<not> verbose_flag opts \<and>
    lvl \<in> {G_LOG_LEVEL_ERROR, G_LOG_LEVEL_CRITICAL, G_LOG_LEVEL_WARNING,
            G_LOG_LEVEL_MESSAGE, G_LOG_LEVEL_INFO, G_LOG_LEVEL_DEBUG} \<longrightarrow>
      (log_handler opts ab t d lvl msg \<noteq> Nothing) =
        (lvl \<in> {G_LOG_LEVEL_WARNING, G_LOG_LEVEL_CRITICAL, G_LOG_LEVEL_ERROR}))"
proof -
  have "G_LOG_LEVEL_MESSAGE \<noteq> G_LOG_FLAG_FATAL" "G_LOG_LEVEL_INFO \<noteq> G_LOG_FLAG_FATAL"
    "G_LOG_LEVEL_DEBUG \<noteq> G_LOG_FLAG_FATAL"
    by (simp_all add: level_values)
  then show ?thesis
    by (auto simp: log_handler_Nothing snd_level_switch)
qed

theorem log_handler_filter_witness:
  "log_handler silent_options c_locale_abmon example_time ''Qmi'' G_LOG_LEVEL_ERROR ''failed'' = Nothing \<and>
   log_handler verbose_options c_locale_abmon example_time ''Qmi'' G_LOG_LEVEL_DEBUG ''sent'' \<noteq> Nothing \<and>
   log_handler example_options c_locale_abmon example_time ''Qmi'' G_LOG_LEVEL_WARNING ''late'' \<noteq> Nothing \<and>
   log_handler example_options c_locale_abmon example_time ''Qmi'' G_LOG_LEVEL_INFO ''sent'' = Nothing"
  using log_handler_filter [of silent_options c_locale_abmon example_time "''Qmi''" G_LOG_LEVEL_ERROR "''failed''"]
    log_handler_filter [of verbose_options c_locale_abmon example_time "''Qmi''" G_LOG_LEVEL_DEBUG "''sent''"]
    log_handler_filter [of example_options c_locale_abmon example_time "''Qmi''" G_LOG_LEVEL_WARNING "''late''"]
    log_handler_filter [of example_options c_locale_abmon example_time "''Qmi''" G_LOG_LEVEL_INFO "''sent''"]
  by (simp add: example_simps level_values)

text \<open>
  Claim C7. Whenever \<^verbatim>\<open>log_handler\<close> writes, and the time string fits the 64 bytes of
  \<^verbatim>\<open>time_str\<close>, it writes one line: in brackets the day of the month, the
  abbreviated month name, the year, and hour, minute and second with colons; then the
  level string, \<^verbatim>\<open>-Warning **\<close> for the warning, \<^verbatim>\<open>-Error **\<close> for the critical,
  the fatal flag and the error, \<^verbatim>\<open>[Debug]\<close> for the debug and the empty string
  otherwise; then the message. The line goes to the error stream exactly for the
  warning, the critical, the fatal flag and the error, and to the standard output
  otherwise.
\<close>

theorem log_handler_line:
  assumes "log_handler opts ab t d lvl msg \<noteq> Nothing"
    and "strftime 64 ab time_format t \<noteq> None"
  shows "log_handler opts ab t d lvl msg =
     Line (if lvl \<in> {G_LOG_LEVEL_WARNING, G_LOG_LEVEL_CRITICAL, G_LOG_FLAG_FATAL,
                     G_LOG_LEVEL_ERROR} then Stderr else Stdout)
       (''['' @ two_digits (tm_mday t) @ '' '' @ ab (tm_mon t) @ '' '' @
        decimal (1900 + tm_year t) @ '', '' @ two_digits (tm_hour t) @ '':'' @
        two_digits (tm_min t) @ '':'' @ two_digits (tm_sec t) @ ''] '' @
        (if lvl = G_LOG_LEVEL_WARNING then ''-Warning **''
         else if lvl \<in> {G_LOG_LEVEL_CRITICAL, G_LOG_FLAG_FATAL, G_LOG_LEVEL_ERROR}
         then ''-Error **''
         else if lvl = G_LOG_LEVEL_DEBUG then ''[Debug]''
         else []) @
        '' '' @ msg @ [CHR 0x0A])"
proof -
  from assms(2) have ts: "strftime 64 ab time_format t = Some (expand ab time_format t)"
    by (simp add: strftime_def Let_def split: if_splits)
  from assms(1) have shown: "\<not> silent_flag opts" "verbose_flag opts \<or> snd (level_switch lvl)"
    by (auto simp: log_handler_Nothing)
  show ?thesis
  proof (cases "snd (level_switch lvl)")
    case True
    with shown ts show ?thesis
      by (auto simp: log_handler_def level_switch_def expand_time_format level_values
          split: if_splits)
  next
    case False
    with shown ts show ?thesis
      by (auto simp: log_handler_def level_switch_def expand_time_format level_values
          split: if_splits)
  qed
qed

theorem log_handler_line_witness:
  "log_handler example_options c_locale_abmon example_time ''Qmi'' G_LOG_LEVEL_WARNING ''late'' =
     Line Stderr ''[03 Oct 2016, 13:07:05] -Warning ** late\<newline>'' \<and>
   log_handler verbose_options c_locale_abmon example_time ''Qmi'' G_LOG_LEVEL_DEBUG ''sent'' =
     Line Stdout ''[03 Oct 2016, 13:07:05] [Debug] sent\<newline>''"
  using log_handler_line [of example_options c_locale_abmon example_time "''Qmi''" G_LOG_LEVEL_WARNING "''late''"]
    log_handler_line [of verbose_options c_locale_abmon example_time "''Qmi''" G_LOG_LEVEL_DEBUG "''sent''"]
  by (simp add: example_simps level_values log_handler_def level_switch_def strftime_example)

text \<open>
  Claim C10. The \<^verbatim>\<open>switch\<close> compares the whole value of \<^verbatim>\<open>log_level\<close>. A value
  with two different bits set, such as the error level together with the fatal flag,
  takes the \<^verbatim>\<open>default\<close> branch: the level string is empty and \<^verbatim>\<open>err\<close> is not
  set. So the record is written only with \<^verbatim>\<open>verbose_flag\<close> set (and \<^verbatim>\<open>silent_flag\<close>
  clear), and then to the standard output.
\<close>

theorem combined_level_takes_default:
  fixes lvl :: GLogLevelFlags
  assumes "i \<noteq> j" and "bit lvl i" and "bit lvl j"
  shows "level_switch lvl = ([], False) \<and>
     (\<not> verbose_flag opts \<longrightarrow> log_handler opts ab t d lvl msg = Nothing) \<and>
     (verbose_flag opts \<and> \<not> silent_flag opts \<longrightarrow>
        log_handler opts ab t d lvl msg =
          (case strftime 64 ab time_format t of
             None \<Rightarrow> Unspecified_line Stdout
           | Some ts \<Rightarrow> Line Stdout (''['' @ ts @ ''] '' @ [] @ '' '' @ msg @ [CHR 0x0A])))"
proof -
  from assms have "level_switch lvl = ([], False)"
    by (rule several_bits_default)
  then show ?thesis
    by (simp add: log_handler_def split: option.splits)
qed

theorem combined_level_takes_default_witness:
  "(1::nat) \<noteq> 2 \<and> bit (G_LOG_LEVEL_ERROR OR G_LOG_FLAG_FATAL) (1::nat) \<and>
   bit (G_LOG_LEVEL_ERROR OR G_LOG_FLAG_FATAL) (2::nat) \<and>
   level_switch (G_LOG_LEVEL_ERROR OR G_LOG_FLAG_FATAL) = ([], False) \<and>
   log_handler example_options c_locale_abmon example_time ''Qmi''
     (G_LOG_LEVEL_ERROR OR G_LOG_FLAG_FATAL) ''failed'' = Nothing \<and>
   log_handler verbose_options c_locale_abmon example_time ''Qmi''
     (G_LOG_LEVEL_ERROR OR G_LOG_FLAG_FATAL) ''failed'' =
     Line Stdout ''[03 Oct 2016, 13:07:05]  failed\<newline>''"
  using combined_level_takes_default [of 1 2 "G_LOG_LEVEL_ERROR OR G_LOG_FLAG_FATAL" example_options
      c_locale_abmon example_time "''Qmi''" "''failed''"]
    combined_level_takes_default [of 1 2 "G_LOG_LEVEL_ERROR OR G_LOG_FLAG_FATAL" verbose_options
      c_locale_abmon example_time "''Qmi''" "''failed''"]
  by (simp add: example_simps level_values strftime_example)

end
